theory Spec2Isabelle
  imports Main
begin

section \<open>The URL shortener: encoder, allocator, record store, cache and handlers\<close>

text \<open>
  The repository has three Go programs: the write service (\<open>convert-api/main.go\<close>), the
  read service without cache (\<open>redirect-api/main.go\<close>) and the read service with a Redis
  cache in front of the database. Go's \<open>int\<close> is taken as the 64-bit signed integer: the
  counter floor \<open>56800235584\<close> does not fit into 32 bits. Integers are modelled as \<open>int\<close>
  with the wrap-around of the 64-bit arithmetic written out. Strings are byte lists.
  The environment (Redis, PostgreSQL, the random generator, the clock) is explicit: each
  remote call takes a fault argument (\<open>Some e\<close>: the call fails with the error text \<open>e\<close>)
  and the state it works on, and returns the new state.
\<close>

subsection \<open>Encoder (convert-api)\<close>

definition BASE62_CHARS :: string where
  "BASE62_CHARS = ''0123456789ABCDEFGHIJKLMNOPQRSTUVWXYZabcdefghijklmnopqrstuvwxyz''"

text \<open>The value of a 64-bit signed result: two's complement wrap-around.\<close>

definition int64 :: "int \<Rightarrow> int" where
  "int64 x = (x + 2 ^ 63) mod 2 ^ 64 - 2 ^ 63"

text \<open>
  \<open>fmt.Sprintf("%07s", s)\<close>: width 7, flag \<open>0\<close>. The formatter of Go pads on the left up
  to the width, and with the flag \<open>0\<close> the padding byte is the character \<open>0\<close>, for strings
  as for numbers (the table of the package's own tests has \<open>%05s\<close> of \<open>abc\<close> giving
  \<open>00abc\<close>). A string of seven or more characters is returned as it is.
\<close>

definition Sprintf_07s :: "string \<Rightarrow> string" where
  "Sprintf_07s s = replicate (7 - length s) (CHR ''0'') @ s"

text \<open>
  The loop \<open>for num > 0\<close> of \<open>encodeBase62\<close>. It runs on positive \<open>num\<close> only, where Go's
  truncating \<open>/\<close> and \<open>%\<close> are \<open>div\<close> and \<open>mod\<close>; the index \<open>num % 62\<close> is below 62, inside
  the alphabet.
\<close>

function encodeBase62_loop :: "int \<Rightarrow> string \<Rightarrow> string" where
  "encodeBase62_loop num result =
     (if num > 0
      then encodeBase62_loop (num div 62) (BASE62_CHARS ! nat (num mod 62) # result)
      else result)"
  by pat_completeness auto
termination
  by (relation "measure (\<lambda>(num, result). nat num)") auto

definition encodeBase62 :: "int \<Rightarrow> string" where
  "encodeBase62 num =
     (if num = 0 then ''0'' else Sprintf_07s (encodeBase62_loop num ''''))"

text \<open>\<open>generateShortCode\<close>; the result of \<open>rand.Intn(1000)\<close> is the argument \<open>randomSalt\<close>.\<close>

definition generateShortCode :: "int \<Rightarrow> int \<Rightarrow> string" where
  "generateShortCode idn randomSalt =
     (let multiplier = 1000;
          combinedNumber = int64 (int64 (idn * multiplier) + randomSalt);
          shortCode = encodeBase62 combinedNumber
      in shortCode)"

subsection \<open>The encoder as the specification words it\<close>

text \<open>
  The digit alphabet \<open>0-9, A-Z, a-z\<close> by character codes, the base-62 rendering with the
  most significant digit first (zero is the single digit \<open>0\<close>), left padding to a width,
  and the specification's \<open>Encode\<close>, which pads with the space character.
\<close>

definition spec_alphabet :: string where
  "spec_alphabet = map char_of ([48..<58] @ [65..<91] @ [97..<123])"

fun render62 :: "nat \<Rightarrow> string" where
  "render62 n =
     (if n < 62 then [spec_alphabet ! n]
      else render62 (n div 62) @ [spec_alphabet ! (n mod 62)])"

definition pad_left :: "char \<Rightarrow> nat \<Rightarrow> string \<Rightarrow> string" where
  "pad_left c w s = replicate (w - length s) c @ s"

definition spec_Encode :: "int \<Rightarrow> int \<Rightarrow> string" where
  "spec_Encode idn salt = pad_left (CHR '' '') 7 (render62 (nat (idn * 1000 + salt)))"

text \<open>Reading a digit string back as a number; the inverse used for injectivity.\<close>

fun index_of :: "'a list \<Rightarrow> 'a \<Rightarrow> nat" where
  "index_of [] y = 0"
| "index_of (x # xs) y = (if x = y then 0 else Suc (index_of xs y))"

definition decode62 :: "string \<Rightarrow> nat" where
  "decode62 s = foldl (\<lambda>acc c. acc * 62 + index_of BASE62_CHARS c) 0 s"

subsection \<open>Redis: the counter and the cache entries\<close>

text \<open>
  The key \<open>url_counter\<close> holds the counter (absent or an integer); the keys
  \<open>url:<shortCode>\<close> hold cached URLs. An entry that expires (30 minutes after it is set)
  is an entry the environment removes; no function below reads the clock.
  A go-redis result is a value and an error: \<open>redis.Nil\<close> for an absent key, another
  error for a failed command, \<open>None\<close> for Go's \<open>nil\<close>.
\<close>

record redis =
  url_counter :: "int option"
  entries :: "string \<rightharpoonup> string"

datatype redis_err = redis_Nil | redis_Error string

fun redis_message :: "redis_err \<Rightarrow> string" where
  "redis_message redis_Nil = ''redis: nil''"
| "redis_message (redis_Error e) = e"

definition rdb_Get_Int64 :: "string option \<Rightarrow> redis \<Rightarrow> int \<times> redis_err option" where
  "rdb_Get_Int64 fault r =
     (case fault of
        Some e \<Rightarrow> (0, Some (redis_Error e))
      | None \<Rightarrow> (case url_counter r of
                   None \<Rightarrow> (0, Some redis_Nil)
                 | Some v \<Rightarrow> (v, None)))"

definition rdb_Set_counter :: "string option \<Rightarrow> redis \<Rightarrow> int \<Rightarrow> redis_err option \<times> redis" where
  "rdb_Set_counter fault r v =
     (case fault of
        Some e \<Rightarrow> (Some (redis_Error e), r)
      | None \<Rightarrow> (None, r\<lparr>url_counter := Some v\<rparr>))"

text \<open>
  \<open>INCR\<close>: an absent key counts as 0; the server refuses an increment beyond the largest
  64-bit value and leaves the key as it is.
\<close>

definition rdb_Incr :: "string option \<Rightarrow> redis \<Rightarrow> (int \<times> redis_err option) \<times> redis" where
  "rdb_Incr fault r =
     (case fault of
        Some e \<Rightarrow> ((0, Some (redis_Error e)), r)
      | None \<Rightarrow>
          (let oldvalue = (case url_counter r of None \<Rightarrow> 0 | Some v \<Rightarrow> v)
           in if 1 > (2 ^ 63 - 1) - oldvalue
              then ((0, Some (redis_Error ''ERR increment or decrement would overflow'')), r)
              else ((oldvalue + 1, None), r\<lparr>url_counter := Some (oldvalue + 1)\<rparr>)))"

definition rdb_Get :: "string option \<Rightarrow> redis \<Rightarrow> string \<Rightarrow> string \<times> redis_err option" where
  "rdb_Get fault r key =
     (case fault of
        Some e \<Rightarrow> ('''', Some (redis_Error e))
      | None \<Rightarrow> (case entries r key of
                   None \<Rightarrow> ('''', Some redis_Nil)
                 | Some v \<Rightarrow> (v, None)))"

definition rdb_Set :: "string option \<Rightarrow> redis \<Rightarrow> string \<Rightarrow> string \<Rightarrow> redis_err option \<times> redis" where
  "rdb_Set fault r key v =
     (case fault of
        Some e \<Rightarrow> (Some (redis_Error e), r)
      | None \<Rightarrow> (None, r\<lparr>entries := (entries r)(key \<mapsto> v)\<rparr>))"

subsection \<open>Allocator (convert-api)\<close>

definition startingValue :: int where
  "startingValue = 56800235584"

text \<open>
  \<open>initRedis\<close> after the client is built: ping, read the counter, reset it when the read
  answered \<open>redis.Nil\<close> or the value read (0 when the read failed) is below the floor.
  \<open>log.Fatalf\<close> ends the process: the result \<open>Inl\<close> with the message.
\<close>

definition initRedis ::
  "string option \<Rightarrow> string option \<Rightarrow> string option \<Rightarrow> redis \<Rightarrow> string + redis" where
  "initRedis ping_fault get_fault set_fault r =
     (case ping_fault of
        Some e \<Rightarrow> Inl (''Failed to connect to Redis: '' @ e)
      | None \<Rightarrow>
          (let (currentVal, err) = rdb_Get_Int64 get_fault r
           in if err = Some redis_Nil \<or> currentVal < startingValue
              then (case rdb_Set_counter set_fault r (startingValue - 1) of
                      (Some e, r') \<Rightarrow>
                        Inl (''Failed to initialize Redis counter: '' @ redis_message e)
                    | (None, r') \<Rightarrow> Inr r')
              else Inr r))"

text \<open>
  \<open>getNextID\<close>. The conversion \<open>int(val)\<close> from \<open>int64\<close> to the 64-bit \<open>int\<close> changes
  nothing.
\<close>

definition getNextID :: "string option \<Rightarrow> redis \<Rightarrow> (string + int) \<times> redis" where
  "getNextID fault r =
     (case rdb_Incr fault r of
        ((val, Some err), r') \<Rightarrow>
          (Inl (''failed to get next ID from Redis: '' @ redis_message err), r')
      | ((val, None), r') \<Rightarrow> (Inr val, r'))"

text \<open>
  A run of allocations against the shared counter: each step is one call of \<open>getNextID\<close>
  by some caller (a replica, a request), atomic as \<open>INCR\<close> is; the list is the order in
  which the counter serves them.
\<close>

fun allocations ::
  "('c \<times> string option) list \<Rightarrow> redis \<Rightarrow> ('c \<times> (string + int)) list \<times> redis" where
  "allocations [] r = ([], r)"
| "allocations ((caller, fault) # steps) r =
     (case getNextID fault r of
        (res, r') \<Rightarrow>
          (case allocations steps r' of
             (rest, r'') \<Rightarrow> ((caller, res) # rest, r'')))"

fun returned :: "('c \<times> (string + int)) list \<Rightarrow> int list" where
  "returned [] = []"
| "returned ((caller, Inl e) # rs) = returned rs"
| "returned ((caller, Inr v) # rs) = v # returned rs"

definition returned_to :: "'c \<Rightarrow> ('c \<times> (string + int)) list \<Rightarrow> int list" where
  "returned_to caller rs = returned (filter (\<lambda>(c, res). c = caller) rs)"

subsection \<open>Record store: the table \<open>urls\<close>\<close>

record URL =
  ID :: int
  OriginalURL :: string
  ShortCode :: string
  CreatedAt :: nat
  UpdatedAt :: nat

text \<open>
  The table is the list of its rows in insertion order, with the next value of the
  sequence behind \<open>id SERIAL\<close>. A statement ends in a row, in \<open>sql.ErrNoRows\<close> or in an
  error of the driver.
\<close>

record database =
  urls :: "URL list"
  urls_id_seq :: int

datatype sql_err = ErrNoRows | DriverError string

fun sql_message :: "sql_err \<Rightarrow> string" where
  "sql_message ErrNoRows = ''sql: no rows in result set''"
| "sql_message (DriverError e) = e"

text \<open>
  A value stored into \<open>short_code VARCHAR(10)\<close>: longer values are refused, unless all
  characters beyond the tenth are spaces, which are cut off.
\<close>

definition varchar10 :: "string \<Rightarrow> string option" where
  "varchar10 s =
     (if length s \<le> 10 then Some s
      else if set (drop 10 s) \<subseteq> {CHR '' ''} then Some (take 10 s)
      else None)"

text \<open>
  \<open>INSERT INTO urls (original_url, short_code) VALUES ($1, $2) RETURNING ...\<close>: the
  identity comes from the sequence (a refused row has used its value), both timestamps
  are the current time, and \<open>short_code\<close> is \<open>UNIQUE\<close>.
\<close>

definition insert_url ::
  "string option \<Rightarrow> nat \<Rightarrow> database \<Rightarrow> string \<Rightarrow> string \<Rightarrow> (sql_err + URL) \<times> database" where
  "insert_url fault now db original_url short_code =
     (case fault of
        Some e \<Rightarrow> (Inl (DriverError e), db)
      | None \<Rightarrow>
          (let db1 = db\<lparr>urls_id_seq := urls_id_seq db + 1\<rparr>
           in case varchar10 short_code of
                None \<Rightarrow>
                  (Inl (DriverError ''pq: value too long for type character varying(10)''), db1)
              | Some code \<Rightarrow>
                  if code \<in> ShortCode ` set (urls db)
                  then (Inl (DriverError
                          ''pq: duplicate key value violates unique constraint''), db1)
                  else (let row = \<lparr>ID = urls_id_seq db, OriginalURL = original_url,
                                    ShortCode = code, CreatedAt = now, UpdatedAt = now\<rparr>
                        in (Inr row, db1\<lparr>urls := urls db @ [row]\<rparr>))))"

text \<open>\<open>SELECT ... FROM urls WHERE short_code = $1\<close>, scanned into one row.\<close>

definition select_by_short_code :: "string option \<Rightarrow> database \<Rightarrow> string \<Rightarrow> sql_err + URL" where
  "select_by_short_code fault db short_code =
     (case fault of
        Some e \<Rightarrow> Inl (DriverError e)
      | None \<Rightarrow> (case find (\<lambda>row. ShortCode row = short_code) (urls db) of
                   None \<Rightarrow> Inl ErrNoRows
                 | Some row \<Rightarrow> Inr row))"

definition saveURL ::
  "string option \<Rightarrow> nat \<Rightarrow> database \<Rightarrow> string \<Rightarrow> string \<Rightarrow> (string + URL) \<times> database" where
  "saveURL fault now db originalURL shortCode =
     (case insert_url fault now db originalURL shortCode of
        (Inl err, db') \<Rightarrow> (Inl (''failed to save URL: '' @ sql_message err), db')
      | (Inr url, db') \<Rightarrow> (Inr url, db'))"

definition getURLByShortCode :: "string option \<Rightarrow> database \<Rightarrow> string \<Rightarrow> string + URL" where
  "getURLByShortCode fault db shortCode =
     (case select_by_short_code fault db shortCode of
        Inl err \<Rightarrow>
          (if err = ErrNoRows then Inl ''short code not found''
           else Inl (''failed to get URL: '' @ sql_message err))
      | Inr url \<Rightarrow> Inr url)"

subsection \<open>Responses and effects of a request\<close>

text \<open>
  A handler call writes responses (\<open>c.JSON\<close>, \<open>c.Redirect\<close>) and talks to the cache and
  the store. A request is modelled by the list of these effects in program order. The
  first response written is the one the client receives: status line and headers go out
  once.
\<close>

datatype jval = JString string | JInt int

datatype response = JSON nat "(string \<times> jval) list" | Redirect nat string

datatype effect =
    CacheGet string
  | StoreQuery string
  | CacheSet string string
  | Respond response

fun responses :: "effect list \<Rightarrow> response list" where
  "responses [] = []"
| "responses (Respond r # es) = r # responses es"
| "responses (e # es) = responses es"

fun store_queries :: "effect list \<Rightarrow> string list" where
  "store_queries [] = []"
| "store_queries (StoreQuery c # es) = c # store_queries es"
| "store_queries (e # es) = store_queries es"

definition received :: "effect list \<Rightarrow> response option" where
  "received es = (case responses es of [] \<Rightarrow> None | r # rs \<Rightarrow> Some r)"

subsection \<open>Read service without cache (redirect-api): \<open>GET /:shortCode\<close>\<close>

definition redirect_handler :: "string option \<Rightarrow> database \<Rightarrow> string \<Rightarrow> effect list" where
  "redirect_handler db_fault db shortCode =
     (if shortCode = ''''
      then [Respond (JSON 400 [(''error'', JString ''short code is required'')])]
      else (case getURLByShortCode db_fault db shortCode of
              Inl err \<Rightarrow>
                [StoreQuery shortCode,
                 Respond (if err = ''short code not found''
                          then JSON 404 [(''error'', JString ''short code not found'')]
                          else JSON 500 [(''error'', JString ''failed to retrieve URL'')])]
            | Inr urlData \<Rightarrow>
                [StoreQuery shortCode, Respond (Redirect 302 (OriginalURL urlData))]))"

subsection \<open>Read service with cache: \<open>GET /:shortCode\<close>\<close>

definition getURLByShortCodeCache ::
  "string option \<Rightarrow> redis \<Rightarrow> string \<Rightarrow> string \<times> redis_err option" where
  "getURLByShortCodeCache fault r shortCode = rdb_Get fault r (''url:'' @ shortCode)"

text \<open>\<open>saveURLCache\<close> drops the result of \<open>rdb.Set\<close>.\<close>

definition saveURLCache :: "string option \<Rightarrow> redis \<Rightarrow> string \<Rightarrow> string \<Rightarrow> redis" where
  "saveURLCache fault r shortCode originalUrl =
     snd (rdb_Set fault r (''url:'' @ shortCode) originalUrl)"

text \<open>
  The handler: after \<open>c.Redirect\<close> on a cache hit there is no \<open>return\<close>, so the database
  lookup and what follows it run in every request with a non-empty code.
\<close>

definition cached_redirect_handler ::
  "string option \<Rightarrow> string option \<Rightarrow> string option \<Rightarrow> redis \<Rightarrow> database \<Rightarrow> string
     \<Rightarrow> effect list \<times> redis" where
  "cached_redirect_handler get_fault db_fault set_fault r db shortCode =
     (if shortCode = ''''
      then ([Respond (JSON 400 [(''error'', JString ''short code is required'')])], r)
      else
        (let (cachedUrl, err) = getURLByShortCodeCache get_fault r shortCode;
             hit = CacheGet shortCode #
                   (if err = None then [Respond (Redirect 302 cachedUrl)] else [])
         in case getURLByShortCode db_fault db shortCode of
              Inl err \<Rightarrow>
                (hit @
                 [StoreQuery shortCode,
                  Respond (if err = ''short code not found''
                           then JSON 404 [(''error'', JString ''short code not found'')]
                           else JSON 500 [(''error'', JString ''failed to retrieve URL'')])],
                 r)
            | Inr urlData \<Rightarrow>
                (hit @
                 [StoreQuery shortCode,
                  CacheSet shortCode (OriginalURL urlData),
                  Respond (Redirect 302 (OriginalURL urlData))],
                 saveURLCache set_fault r shortCode (OriginalURL urlData))))"

subsection \<open>Write service (convert-api): \<open>POST /api/v1/urls\<close>\<close>

text \<open>
  The request body: not decodable (with the decoder's message), or an object with or
  without the member \<open>originalUrl\<close>. The binding \<open>required\<close> refuses a missing and an
  empty value.
  \<open>url.Parse\<close> is the argument \<open>url_Parse\<close> of the handlers: \<open>None\<close> is its error, and
  of the parsed URL the model keeps the two fields that the program and \<open>http.Redirect\<close>
  read, the scheme and the host.
\<close>

datatype request_body = Malformed string | Object "string option"

record url_parts =
  Scheme :: string
  Host :: string

definition required_message :: string where
  "required_message = ''Key: 'ConvertRequestBody.OriginalUrl' Error:Field validation for 'OriginalUrl' failed on the 'required' tag''"

definition ShouldBindJSON :: "request_body \<Rightarrow> string + string" where
  "ShouldBindJSON body =
     (case body of
        Malformed e \<Rightarrow> Inl e
      | Object None \<Rightarrow> Inl required_message
      | Object (Some u) \<Rightarrow> if u = '''' then Inl required_message else Inr u)"

definition convert_handler ::
  "(string \<Rightarrow> url_parts option) \<Rightarrow> string option \<Rightarrow> string option \<Rightarrow> nat \<Rightarrow> int \<Rightarrow> redis
     \<Rightarrow> database \<Rightarrow> request_body \<Rightarrow> response \<times> redis \<times> database" where
  "convert_handler url_Parse incr_fault db_fault now randomSalt r db body =
     (case ShouldBindJSON body of
        Inl e \<Rightarrow> (JSON 400 [(''error'', JString e)], r, db)
      | Inr originalUrl \<Rightarrow>
          if url_Parse originalUrl = None
          then (JSON 400 [(''error'', JString ''invalid url'')], r, db)
          else (case getNextID incr_fault r of
                  (Inl e, r') \<Rightarrow>
                    (JSON 500 [(''error'', JString ''failed to generate short URL'')], r', db)
                | (Inr idn, r') \<Rightarrow>
                    (let shortCode = generateShortCode idn randomSalt
                     in case saveURL db_fault now db originalUrl shortCode of
                          (Inl e, db') \<Rightarrow>
                            (JSON 500 [(''error'', JString ''failed to save URL'')], r', db')
                        | (Inr savedURL, db') \<Rightarrow>
                            (JSON 201
                               [(''shortUrl'', JString (''http://localhost:8000/'' @ shortCode)),
                                (''shortCode'', JString shortCode),
                                (''originalUrl'', JString originalUrl),
                                (''id'', JInt (ID savedURL))],
                             r', db'))))"

subsection \<open>What a redirect sends: \<open>http.Redirect\<close>\<close>

text \<open>
  \<open>c.Redirect(code, url)\<close> of gin calls \<open>http.Redirect\<close> of net/http, which computes the
  \<open>Location\<close> header from \<open>url\<close> and the path of the request. A URL that parses with
  neither scheme nor host is made an absolute path: unless it starts with a slash, the
  directory of the request path is put in front; the part before the first \<open>?\<close> goes
  through \<open>path.Clean\<close>, keeping a trailing slash. Every other URL is taken as it is.
  At the end each byte from 128 on is written as \<open>%\<close> and its two hexadecimal digits.
\<close>












subsection \<open>Runs of the services\<close>

text \<open>
  What happens to the shared Redis and the store between two requests: a request to the
  write service, a request to the read service with cache, the start of a replica
  (\<open>initRedis\<close>; a fatal error leaves the state as it is), and the expiry of the cache
  entry of a code. The read service without cache changes nothing.
\<close>

datatype event =
    Convert "string option" "string option" nat int request_body
  | Resolve "string option" "string option" "string option" string
  | Startup "string option" "string option" "string option"
  | Expire string

fun step :: "(string \<Rightarrow> url_parts option) \<Rightarrow> event \<Rightarrow> redis \<times> database \<Rightarrow> redis \<times> database" where
  "step url_Parse (Convert incr_fault db_fault now salt body) (r, db) =
     snd (convert_handler url_Parse incr_fault db_fault now salt r db body)"
| "step url_Parse (Resolve get_fault db_fault set_fault shortCode) (r, db) =
     (snd (cached_redirect_handler get_fault db_fault set_fault r db shortCode), db)"
| "step url_Parse (Startup ping_fault get_fault set_fault) (r, db) =
     (case initRedis ping_fault get_fault set_fault r of
        Inl e \<Rightarrow> (r, db)
      | Inr r' \<Rightarrow> (r', db))"
| "step url_Parse (Expire shortCode) (r, db) =
     (r\<lparr>entries := (entries r)(''url:'' @ shortCode := None)\<rparr>, db)"


section \<open>Properties\<close>

declare encodeBase62_loop.simps [simp del]
declare render62.simps [simp del]

subsection \<open>The alphabet and the digit loop\<close>

lemma alphabet_eq: "spec_alphabet = BASE62_CHARS"
  unfolding spec_alphabet_def BASE62_CHARS_def by code_simp

lemma BASE62_length: "length BASE62_CHARS = 62"
  by (simp add: BASE62_CHARS_def)

lemma BASE62_distinct: "distinct BASE62_CHARS"
  by (simp add: BASE62_CHARS_def)

lemma space_not_digit: "CHR '' '' \<notin> set BASE62_CHARS"
  by (simp add: BASE62_CHARS_def)

lemma loop_nonpos: "num \<le> 0 \<Longrightarrow> encodeBase62_loop num acc = acc"
  by (simp add: encodeBase62_loop.simps)

text \<open>On a positive number the loop prepends the base-62 rendering to the accumulator.\<close>

lemma loop_render: "0 < n \<Longrightarrow> encodeBase62_loop (int n) acc = render62 n @ acc"
proof (induction n arbitrary: acc rule: render62.induct)
  case (1 n)
  have step: "encodeBase62_loop (int n) acc
            = encodeBase62_loop (int n div 62) (BASE62_CHARS ! nat (int n mod 62) # acc)"
    using "1.prems" by (subst encodeBase62_loop.simps) simp
  show ?case
  proof (cases "n < 62")
    case True
    note step
    also have "int n div 62 = 0" using True by simp
    also have "nat (int n mod 62) = n" using True by simp
    finally show ?thesis using True
      by (simp add: loop_nonpos render62.simps [of n] alphabet_eq)
  next
    case False
    then have pos: "0 < n div 62" by (simp add: div_greater_zero_iff)
    note step
    also have "int n div 62 = int (n div 62)" by (simp add: zdiv_int)
    also have "nat (int n mod 62) = n mod 62" by (simp add: nat_mod_distrib)
    finally show ?thesis using False "1.IH" [OF False pos]
      by (simp add: render62.simps [of n] alphabet_eq)
  qed
qed

lemma encodeBase62_pos:
  "0 < num \<Longrightarrow> encodeBase62 num = pad_left (CHR ''0'') 7 (render62 (nat num))"
  using loop_render [of "nat num" "''''"]
  by (simp add: encodeBase62_def Sprintf_07s_def pad_left_def)

lemma render62_chars: "set (render62 n) \<subseteq> set BASE62_CHARS"
proof (induction n rule: render62.induct)
  case (1 n)
  have m: "BASE62_CHARS ! (n mod 62) \<in> set BASE62_CHARS"
    by (simp add: BASE62_length)
  show ?case
  proof (cases "n < 62")
    case True
    then show ?thesis
      by (simp add: render62.simps [of n] alphabet_eq BASE62_length)
  next
    case False
    then show ?thesis using "1.IH" m
      by (simp add: render62.simps [of n] alphabet_eq)
  qed
qed

lemma encodeBase62_chars: "set (encodeBase62 num) \<subseteq> set BASE62_CHARS"
proof -
  have z: "CHR ''0'' \<in> set BASE62_CHARS" by (simp add: BASE62_CHARS_def)
  consider "num = 0" | "num < 0" | "0 < num" by linarith
  then show ?thesis
  proof cases
    case 1
    then show ?thesis using z by (simp add: encodeBase62_def)
  next
    case 2
    then show ?thesis using z by (auto simp: encodeBase62_def Sprintf_07s_def loop_nonpos)
  next
    case 3
    then show ?thesis using z render62_chars [of "nat num"]
      by (auto simp: encodeBase62_pos pad_left_def)
  qed
qed


lemma generateShortCode_chars: "set (generateShortCode idn salt) \<subseteq> set BASE62_CHARS"
  by (simp add: generateShortCode_def encodeBase62_chars)


subsection \<open>Decoding: the encoder is injective on the non-negative numbers\<close>

lemma index_of_nth: "distinct xs \<Longrightarrow> i < length xs \<Longrightarrow> index_of xs (xs ! i) = i"
proof (induction xs arbitrary: i)
  case Nil
  then show ?case by simp
next
  case (Cons x xs)
  then show ?case by (cases i) auto
qed

lemma digit_value: "d < 62 \<Longrightarrow> index_of BASE62_CHARS (BASE62_CHARS ! d) = d"
  by (simp add: index_of_nth BASE62_distinct BASE62_length)

lemma index_of_zero: "index_of BASE62_CHARS (CHR ''0'') = 0"
  by (simp add: BASE62_CHARS_def)

lemma decode62_snoc: "decode62 (s @ [c]) = decode62 s * 62 + index_of BASE62_CHARS c"
  by (simp add: decode62_def)

lemma decode62_render62: "decode62 (render62 n) = n"
proof (induction n rule: render62.induct)
  case (1 n)
  show ?case
  proof (cases "n < 62")
    case True
    then show ?thesis
      by (simp add: render62.simps [of n] alphabet_eq decode62_def digit_value)
  next
    case False
    then show ?thesis using "1.IH"
      by (simp add: render62.simps [of n] alphabet_eq decode62_snoc digit_value)
  qed
qed

lemma decode62_zeros: "decode62 (replicate k (CHR ''0'') @ s) = decode62 s"
  by (induction k) (simp_all add: decode62_def index_of_zero)

lemma decode62_encodeBase62: "0 \<le> num \<Longrightarrow> decode62 (encodeBase62 num) = nat num"
proof (cases "num = 0")
  case True
  then show ?thesis by (simp add: encodeBase62_def decode62_def index_of_zero)
next
  case False
  assume "0 \<le> num"
  with False have "0 < num" by simp
  then show ?thesis
    by (simp add: encodeBase62_pos pad_left_def decode62_zeros decode62_render62)
qed

lemma encodeBase62_inj:
  assumes "0 \<le> a" "0 \<le> b" "encodeBase62 a = encodeBase62 b"
  shows "a = b"
proof -
  have "nat a = nat b"
    using assms decode62_encodeBase62 [of a] decode62_encodeBase62 [of b] by simp
  with assms show ?thesis by simp
qed

subsection \<open>The combined number without overflow\<close>

lemma int64_id: "- (2 ^ 63) \<le> x \<Longrightarrow> x < 2 ^ 63 \<Longrightarrow> int64 x = x"
  by (simp add: int64_def)

lemma int64_add: "int64 (int64 a + b) = int64 (a + b)"
proof -
  have "(((a + 2 ^ 63) mod 2 ^ 64 - 2 ^ 63) + b + 2 ^ 63) mod 2 ^ 64
          = ((a + 2 ^ 63) mod 2 ^ 64 + b) mod (2 ^ 64 :: int)"
    by (simp add: algebra_simps)
  also have "\<dots> = (a + 2 ^ 63 + b) mod 2 ^ 64"
    by (simp add: mod_add_left_eq)
  finally show ?thesis by (simp add: int64_def algebra_simps)
qed

lemma combined_no_overflow:
  "- (2 ^ 63) \<le> idn * 1000 + salt \<Longrightarrow> idn * 1000 + salt < 2 ^ 63 \<Longrightarrow>
   generateShortCode idn salt = encodeBase62 (idn * 1000 + salt)"
  by (simp add: generateShortCode_def int64_add int64_id)

subsection \<open>Encoder claims\<close>

text \<open>
  C3 (zero input). The claim: \<open>Encode(0, 0)\<close> is the digit \<open>0\<close> padded on the left to the
  width 7. The code returns from \<open>encodeBase62\<close> before the padding when \<open>num = 0\<close>: the
  result is the one character \<open>0\<close>, of length 1, while every other input goes through
  \<open>Sprintf("%07s")\<close> and has at least 7 characters.
\<close>

theorem encodeBase62_zero_unpadded:
  "encodeBase62 0 = ''0'' \<and> generateShortCode 0 0 = ''0'' \<and>
   length (generateShortCode 0 0) = 1 \<and> length (generateShortCode 0 1) = 7"
  by code_simp

text \<open>
  C4 (encoder algorithm), as amended: for a salt in \<open>[0, 1000)\<close> and a combined number
  \<open>id * 1000 + salt\<close> that is positive and below \<open>2^63\<close> (no overflow of the 64-bit
  arithmetic), the short code is the base-62 rendering of the combined number over
  \<open>0-9, A-Z, a-z\<close>, most significant digit first, padded on the left with the digit
  character \<open>0\<close> to the width 7 when it is shorter.
\<close>

theorem generateShortCode_base62:
  assumes "0 \<le> salt" "salt < 1000"
    and "0 < idn * 1000 + salt" "idn * 1000 + salt < 2 ^ 63"
  shows "generateShortCode idn salt =
           pad_left (CHR ''0'') 7 (render62 (nat (idn * 1000 + salt)))"
  using assms by (simp add: combined_no_overflow encodeBase62_pos)

text \<open>The theorem at the counter floor with the salt 999.\<close>

theorem generateShortCode_base62_witness:
  "(0::int) \<le> 999 \<and> (999::int) < 1000 \<and> (0::int) < 56800235584 * 1000 + 999 \<and>
   (56800235584::int) * 1000 + 999 < 2 ^ 63 \<and>
   generateShortCode 56800235584 999 = ''G80000G7'' \<and>
   pad_left (CHR ''0'') 7 (render62 (nat (56800235584 * 1000 + 999))) = ''G80000G7''"
proof -
  have "generateShortCode 56800235584 999 =
          pad_left (CHR ''0'') 7 (render62 (nat (56800235584 * 1000 + 999)))"
    by (rule generateShortCode_base62) simp_all
  moreover have "generateShortCode 56800235584 999 = ''G80000G7''"
    by code_simp
  ultimately show ?thesis by simp
qed

text \<open>
  The claim as stated pads with the space character. At \<open>id = 0\<close>, \<open>salt = 1\<close> the
  combined number is 1: the code gives six characters \<open>0\<close> and the digit \<open>1\<close>, the
  specification's encoder six spaces and the digit \<open>1\<close>.
\<close>

theorem generateShortCode_space_pad_counterexample:
  "generateShortCode 0 1 = ''0000001'' \<and> spec_Encode 0 1 = ''      1'' \<and>
   generateShortCode 0 1 \<noteq> spec_Encode 0 1"
  by code_simp

text \<open>
  C5 (distinct ids give distinct codes), as amended: for distinct non-negative ids and
  salts in \<open>[0, 1000)\<close> whose combined numbers stay below \<open>2^63\<close>, the two short codes
  differ.
\<close>

theorem generateShortCode_injective:
  assumes "0 \<le> id1" "0 \<le> id2" "id1 \<noteq> id2"
    and "0 \<le> s1" "s1 < 1000" "0 \<le> s2" "s2 < 1000"
    and "id1 * 1000 + s1 < 2 ^ 63" "id2 * 1000 + s2 < 2 ^ 63"
  shows "generateShortCode id1 s1 \<noteq> generateShortCode id2 s2"
proof
  assume eq: "generateShortCode id1 s1 = generateShortCode id2 s2"
  have n1: "0 \<le> id1 * 1000 + s1" and n2: "0 \<le> id2 * 1000 + s2"
    using assms by simp_all
  have "encodeBase62 (id1 * 1000 + s1) = encodeBase62 (id2 * 1000 + s2)"
    using eq n1 n2 assms(8,9) by (simp add: combined_no_overflow)
  then have "id1 * 1000 + s1 = id2 * 1000 + s2"
    using n1 n2 by (rule encodeBase62_inj [rotated 2])
  then have "(id1 * 1000 + s1) div 1000 = (id2 * 1000 + s2) div 1000" by simp
  moreover have "(id1 * 1000 + s1) div 1000 = id1" using assms(4,5) by simp
  moreover have "(id2 * 1000 + s2) div 1000 = id2" using assms(6,7) by simp
  ultimately show False using assms(3) by simp
qed

text \<open>Two successive ids at the counter floor, the first with the largest salt.\<close>

theorem generateShortCode_injective_witness:
  "(0::int) \<le> 56800235584 \<and> (56800235584::int) \<noteq> 56800235585 \<and>
   (56800235584::int) * 1000 + 999 < 2 ^ 63 \<and>
   generateShortCode 56800235584 999 \<noteq> generateShortCode 56800235585 0"
proof -
  have "generateShortCode 56800235584 999 \<noteq> generateShortCode 56800235585 0"
    by (rule generateShortCode_injective) simp_all
  then show ?thesis by simp
qed

text \<open>
  The claim as stated ranges over all non-negative ids. The ids 1 and \<open>2^61 + 1\<close> are
  distinct, non-negative 64-bit integers; \<open>(2^61 + 1) * 1000\<close> is \<open>125 * 2^64 + 1000\<close>
  and wraps to 1000, so with the salt 0 both get the code of the number 1000.
\<close>

theorem generateShortCode_collision:
  "(0::int) \<le> 1 \<and> (0::int) \<le> 2 ^ 61 + 1 \<and> (2::int) ^ 61 + 1 < 2 ^ 63 \<and>
   (1::int) \<noteq> 2 ^ 61 + 1 \<and>
   generateShortCode 1 0 = ''00000G8'' \<and> generateShortCode (2 ^ 61 + 1) 0 = ''00000G8''"
  by code_simp

text \<open>
  C10 (negative input), as amended: for every negative input the digit loop does not run
  and \<open>encodeBase62\<close> returns the empty rendering padded to the width 7, which is seven
  characters \<open>0\<close>.
\<close>

theorem encodeBase62_negative:
  "num < 0 \<Longrightarrow> encodeBase62_loop num '''' = '''' \<and> encodeBase62 num = ''0000000''"
  by (simp add: encodeBase62_def Sprintf_07s_def loop_nonpos eval_nat_numeral)

theorem encodeBase62_negative_witness:
  "(- 5 :: int) < 0 \<and> encodeBase62_loop (- 5) '''' = '''' \<and> encodeBase62 (- 5) = ''0000000''"
  using encodeBase62_negative [of "- 5"] by simp

text \<open>
  The claim as stated has seven spaces and no base-62 digit in the result; at \<open>- 1\<close>
  the result is not seven spaces, and its characters are the digit \<open>0\<close>.
\<close>

theorem encodeBase62_negative_counterexample:
  "encodeBase62 (- 1) \<noteq> replicate 7 (CHR '' '') \<and>
   set (encodeBase62 (- 1)) = {CHR ''0''} \<and> CHR ''0'' \<in> set BASE62_CHARS"
  by code_simp

subsection \<open>Allocator claims\<close>

lemma getNextID_Inr:
  "getNextID fault r = (Inr v, r') \<Longrightarrow>
     v = (case url_counter r of None \<Rightarrow> 0 | Some c \<Rightarrow> c) + 1 \<and> url_counter r' = Some v"
  by (auto simp: getNextID_def rdb_Incr_def Let_def split: option.splits if_splits)

lemma getNextID_Inl: "getNextID fault r = (Inl e, r') \<Longrightarrow> r' = r"
  by (auto simp: getNextID_def rdb_Incr_def Let_def split: option.splits if_splits)


text \<open>
  The values a run returns increase strictly, and all lie above the counter the run
  started from.
\<close>

lemma allocations_increasing:
  "sorted_wrt (<) (returned (fst (allocations steps r))) \<and>
   (\<forall>v \<in> set (returned (fst (allocations steps r))).
      (case url_counter r of None \<Rightarrow> 0 | Some c \<Rightarrow> c) < v)"
proof (induction steps arbitrary: r)
  case Nil
  then show ?case by simp
next
  case (Cons step steps)
  obtain caller fault where step: "step = (caller, fault)" by (cases step)
  obtain res r' where g: "getNextID fault r = (res, r')" by (cases "getNextID fault r")
  obtain rest r'' where a: "allocations steps r' = (rest, r'')"
    by (cases "allocations steps r'")
  have ih: "sorted_wrt (<) (returned rest)"
    "\<forall>v \<in> set (returned rest). (case url_counter r' of None \<Rightarrow> 0 | Some c \<Rightarrow> c) < v"
    using Cons.IH [of r'] a by simp_all
  show ?case
  proof (cases res)
    case (Inl e)
    with g have "r' = r" by (simp add: getNextID_Inl)
    with ih show ?thesis using step g a Inl by simp
  next
    case (Inr v)
    with g have v: "v = (case url_counter r of None \<Rightarrow> 0 | Some c \<Rightarrow> c) + 1"
      "url_counter r' = Some v"
      using getNextID_Inr [of fault r v r'] by simp_all
    with ih show ?thesis using step g a Inr by fastforce
  qed
qed

lemma returned_filter_subset: "set (returned (filter P rs)) \<subseteq> set (returned rs)"
  by (induction rs rule: returned.induct) auto

lemma returned_filter_sorted:
  "sorted_wrt (<) (returned rs) \<Longrightarrow> sorted_wrt (<) (returned (filter P rs))"
proof (induction rs rule: returned.induct)
  case 1
  then show ?case by simp
next
  case (2 caller e rs)
  then show ?case by simp
next
  case (3 caller v rs)
  then show ?case using returned_filter_subset [of P rs] by auto
qed

lemma sorted_less_distinct: "sorted_wrt (<) (xs :: int list) \<Longrightarrow> distinct xs"
  by (induction xs) auto

text \<open>
  The counter floor when the three Redis commands of \<open>initRedis\<close> succeed: a counter
  that is absent or below the floor \<open>startingValue\<close> is set to \<open>startingValue - 1\<close>, and
  the next \<open>getNextID\<close> returns the floor; any other counter is left as it is.
\<close>

lemma initRedis_floor:
  "initRedis None None None r =
     Inr (if (case url_counter r of None \<Rightarrow> True | Some v \<Rightarrow> v < startingValue)
          then r\<lparr>url_counter := Some (startingValue - 1)\<rparr> else r) \<and>
   ((case url_counter r of None \<Rightarrow> True | Some v \<Rightarrow> v < startingValue) \<longrightarrow>
      fst (getNextID None (r\<lparr>url_counter := Some (startingValue - 1)\<rparr>)) = Inr startingValue)"
  by (auto simp: initRedis_def rdb_Get_Int64_def rdb_Set_counter_def getNextID_def rdb_Incr_def
        startingValue_def Let_def split: option.splits)

text \<open>A fresh Redis (no counter), and a counter that is already above the floor.\<close>

lemma initRedis_floor_examples:
  "initRedis None None None \<lparr>url_counter = None, entries = Map.empty\<rparr> =
     Inr \<lparr>url_counter = Some 56800235583, entries = Map.empty\<rparr> \<and>
   fst (getNextID None \<lparr>url_counter = Some 56800235583, entries = Map.empty\<rparr>) =
     Inr 56800235584 \<and>
   initRedis None None None \<lparr>url_counter = Some 56800235590, entries = Map.empty\<rparr> =
     Inr \<lparr>url_counter = Some 56800235590, entries = Map.empty\<rparr>"
  using initRedis_floor [of "\<lparr>url_counter = None, entries = Map.empty\<rparr>"]
    initRedis_floor [of "\<lparr>url_counter = Some 56800235590, entries = Map.empty\<rparr>"]
  by (simp add: startingValue_def)

text \<open>
  When the read of the counter fails with an error other than \<open>redis.Nil\<close> and the write
  succeeds, \<open>initRedis\<close> resets the counter whatever it holds: the value read is then 0.
\<close>

lemma initRedis_read_fault:
  "initRedis None (Some e) None r = Inr (r\<lparr>url_counter := Some (startingValue - 1)\<rparr>)"
  by (simp add: initRedis_def rdb_Get_Int64_def rdb_Set_counter_def startingValue_def)


text \<open>
  C6 (counter floor). The claim: a stored counter that is absent or below the floor is set
  to the floor minus one, and any other stored counter is left untouched; the comments
  of \<open>initRedis\<close> say the same. The counter holds 56800235590, six allocations above the
  floor; the ping succeeds, the read of the counter fails with a timeout, the write
  succeeds. The error is not \<open>redis.Nil\<close>, but the value read is then 0, below the
  floor: \<open>initRedis\<close> overwrites the counter with 56800235583, and the next \<open>getNextID\<close>
  returns the floor 56800235584 a second time.
\<close>

theorem initRedis_read_fault_overwrites:
  "rdb_Get_Int64 (Some ''i/o timeout'')
     \<lparr>url_counter = Some 56800235590, entries = Map.empty\<rparr> =
     (0, Some (redis_Error ''i/o timeout'')) \<and>
   initRedis None (Some ''i/o timeout'') None
     \<lparr>url_counter = Some 56800235590, entries = Map.empty\<rparr> =
     Inr \<lparr>url_counter = Some 56800235583, entries = Map.empty\<rparr> \<and>
   fst (getNextID None \<lparr>url_counter = Some 56800235583, entries = Map.empty\<rparr>) =
     Inr 56800235584"
  by (simp add: initRedis_def rdb_Get_Int64_def rdb_Set_counter_def startingValue_def
        getNextID_def rdb_Incr_def)

text \<open>
  When no step fails and the counter stays below \<open>2^63\<close>, every step returns: the run
  returns the next integers after the counter, one for each step.
\<close>

lemma allocations_all_return:
  assumes "list_all (\<lambda>(caller, fault). fault = None) steps"
    and "(case url_counter r of None \<Rightarrow> 0 | Some c \<Rightarrow> c) + int (length steps) < 2 ^ 63"
  shows "returned (fst (allocations steps r)) =
           map (\<lambda>i. (case url_counter r of None \<Rightarrow> 0 | Some c \<Rightarrow> c) + 1 + int i)
             [0..<length steps]"
  using assms
proof (induction steps arbitrary: r)
  case Nil
  then show ?case by simp
next
  case (Cons step steps)
  define cur where "cur = (case url_counter r of None \<Rightarrow> 0 | Some c \<Rightarrow> c)"
  obtain caller where step: "step = (caller, None)"
    using Cons.prems(1) by (cases step) auto
  have room: "cur + 1 + int (length steps) < 2 ^ 63"
    using Cons.prems(2) by (simp add: cur_def)
  then have g: "getNextID None r = (Inr (cur + 1), r\<lparr>url_counter := Some (cur + 1)\<rparr>)"
    by (simp add: getNextID_def rdb_Incr_def Let_def cur_def)
  obtain rest r'' where a: "allocations steps (r\<lparr>url_counter := Some (cur + 1)\<rparr>) = (rest, r'')"
    by (cases "allocations steps (r\<lparr>url_counter := Some (cur + 1)\<rparr>)")
  have "returned rest = map (\<lambda>i. cur + 1 + 1 + int i) [0..<length steps]"
    using Cons.IH [of "r\<lparr>url_counter := Some (cur + 1)\<rparr>"] Cons.prems(1) room a
    by simp
  then have "returned (fst (allocations (step # steps) r)) =
          (cur + 1) # map (\<lambda>i. cur + 1 + 1 + int i) [0..<length steps]"
    using step g a by simp
  also have "\<dots> = map (\<lambda>i. cur + 1 + int i) [0..<length (step # steps)]"
    by (simp add: upt_rec [of 0] map_Suc_upt [symmetric] del: upt_Suc)
  finally show ?case by (simp only: cur_def)
qed

text \<open>
  C7 (allocation). For every run of allocation steps against the shared counter, from
  any state and with any steps failing: the returned integers are pairwise distinct and
  strictly increasing in the order the counter served them, and so are the integers
  returned to each single caller, in that caller's call order. When no step fails and
  the counter stays below \<open>2^63\<close>, each of the N steps returns an integer.
\<close>

theorem allocations_distinct_increasing:
  "distinct (returned (fst (allocations steps r))) \<and>
   sorted_wrt (<) (returned (fst (allocations steps r))) \<and>
   sorted_wrt (<) (returned_to caller (fst (allocations steps r))) \<and>
   (list_all (\<lambda>(caller, fault). fault = None) steps \<and>
    (case url_counter r of None \<Rightarrow> 0 | Some c \<Rightarrow> c) + int (length steps) < 2 ^ 63 \<longrightarrow>
      length (returned (fst (allocations steps r))) = length steps)"
  using allocations_increasing [of steps r] allocations_all_return [of steps r]
  by (simp add: sorted_less_distinct returned_to_def returned_filter_sorted)

text \<open>Four allocations by two replicas after a fresh initialisation.\<close>

theorem allocations_distinct_increasing_witness:
  "list_all (\<lambda>(caller, fault). fault = None)
     [(''a'', None), (''b'', None), (''b'', None), (''a'', None)] \<and>
   returned (fst (allocations [(''a'', None), (''b'', None), (''b'', None), (''a'', None)]
     \<lparr>url_counter = Some 56800235583, entries = Map.empty\<rparr>)) =
     [56800235584, 56800235585, 56800235586, 56800235587] \<and>
   returned_to ''a'' (fst (allocations [(''a'', None), (''b'', None), (''b'', None), (''a'', None)]
     \<lparr>url_counter = Some 56800235583, entries = Map.empty\<rparr>)) =
     [56800235584, 56800235587] \<and>
   distinct (returned (fst (allocations [(''a'', None), (''b'', None), (''b'', None), (''a'', None)]
     \<lparr>url_counter = Some 56800235583, entries = Map.empty\<rparr>))) \<and>
   sorted_wrt (<) (returned_to ''a''
     (fst (allocations [(''a'', None), (''b'', None), (''b'', None), (''a'', None)]
       \<lparr>url_counter = Some 56800235583, entries = Map.empty\<rparr>)))"
  using allocations_distinct_increasing
    [of "[(''a'', None), (''b'', None), (''b'', None), (''a'', None)]"
        "\<lparr>url_counter = Some 56800235583, entries = Map.empty\<rparr>" "''a''"]
  by (simp add: getNextID_def rdb_Incr_def returned_to_def)

subsection \<open>Record store and read path\<close>


lemma find_None_image: "c \<notin> f ` set xs \<Longrightarrow> find (\<lambda>x. f x = c) xs = None"
  by (auto simp: find_None_iff)

lemma getURLByShortCode_absent:
  "shortCode \<notin> ShortCode ` set (urls db) \<Longrightarrow>
     getURLByShortCode None db shortCode = Inl ''short code not found''"
  by (simp add: getURLByShortCode_def select_by_short_code_def find_None_image)

text \<open>
  C8 (absent code). For a short code that no row of the store has, when the store
  answers the query: \<open>getURLByShortCode\<close> returns the error \<open>short code not found\<close>, and
  the redirect handler, for a non-empty code (the route binds no empty one), queries the
  store once and answers 404 with the error body, not a redirect and not 500.
\<close>

theorem absent_code_not_found:
  assumes "shortCode \<notin> ShortCode ` set (urls db)"
  shows "getURLByShortCode None db shortCode = Inl ''short code not found'' \<and>
         (shortCode \<noteq> '''' \<longrightarrow>
            redirect_handler None db shortCode =
              [StoreQuery shortCode,
               Respond (JSON 404 [(''error'', JString ''short code not found'')])])"
  using assms by (simp add: redirect_handler_def getURLByShortCode_absent)

theorem absent_code_not_found_witness:
  "''does-not-exist'' \<notin> ShortCode ` set (urls
      \<lparr>urls = [\<lparr>ID = 1, OriginalURL = ''https://example.com'', ShortCode = ''G80000G7'',
                CreatedAt = 0, UpdatedAt = 0\<rparr>], urls_id_seq = 2\<rparr>) \<and>
   ''does-not-exist'' \<noteq> '''' \<and>
   getURLByShortCode None
      \<lparr>urls = [\<lparr>ID = 1, OriginalURL = ''https://example.com'', ShortCode = ''G80000G7'',
                CreatedAt = 0, UpdatedAt = 0\<rparr>], urls_id_seq = 2\<rparr> ''does-not-exist'' =
     Inl ''short code not found'' \<and>
   received (redirect_handler None
      \<lparr>urls = [\<lparr>ID = 1, OriginalURL = ''https://example.com'', ShortCode = ''G80000G7'',
                CreatedAt = 0, UpdatedAt = 0\<rparr>], urls_id_seq = 2\<rparr> ''does-not-exist'') =
     Some (JSON 404 [(''error'', JString ''short code not found'')])"
  using absent_code_not_found [of "''does-not-exist''"
      "\<lparr>urls = [\<lparr>ID = 1, OriginalURL = ''https://example.com'', ShortCode = ''G80000G7'',
                CreatedAt = 0, UpdatedAt = 0\<rparr>], urls_id_seq = 2\<rparr>"]
  by (simp add: received_def)

subsection \<open>The read path with the cache\<close>

lemma store_queries_append: "store_queries (xs @ ys) = store_queries xs @ store_queries ys"
  by (induction xs rule: store_queries.induct) simp_all

lemma responses_append: "responses (xs @ ys) = responses xs @ responses ys"
  by (induction xs rule: responses.induct) simp_all

text \<open>Every request with a non-empty code queries the store once, cache hit or not.\<close>

lemma cached_handler_queries:
  "shortCode \<noteq> '''' \<Longrightarrow>
     store_queries (fst (cached_redirect_handler get_fault db_fault set_fault r db shortCode)) =
       [shortCode]"
  by (auto simp: cached_redirect_handler_def Let_def store_queries_append
       split: prod.splits sum.splits)

text \<open>
  C2 (cache hit). The claim: on a cache hit the handler responds with the cached URL and
  does not query the store. With the entry \<open>url:abc\<close> in the cache the lookup succeeds,
  the handler writes the redirect to the cached URL, and then goes on: it queries the
  store for \<open>abc\<close>, writes the cache again and writes a second redirect.
\<close>

theorem cache_hit_still_queries_store:
  "getURLByShortCodeCache None
     \<lparr>url_counter = None, entries = [''url:abc'' \<mapsto> ''https://example.com'']\<rparr> ''abc'' =
     (''https://example.com'', None) \<and>
   fst (cached_redirect_handler None None None
     \<lparr>url_counter = None, entries = [''url:abc'' \<mapsto> ''https://example.com'']\<rparr>
     \<lparr>urls = [\<lparr>ID = 1, OriginalURL = ''https://example.com'', ShortCode = ''abc'',
               CreatedAt = 0, UpdatedAt = 0\<rparr>], urls_id_seq = 2\<rparr> ''abc'') =
     [CacheGet ''abc'', Respond (Redirect 302 ''https://example.com''),
      StoreQuery ''abc'', CacheSet ''abc'' ''https://example.com'',
      Respond (Redirect 302 ''https://example.com'')] \<and>
   store_queries (fst (cached_redirect_handler None None None
     \<lparr>url_counter = None, entries = [''url:abc'' \<mapsto> ''https://example.com'']\<rparr>
     \<lparr>urls = [\<lparr>ID = 1, OriginalURL = ''https://example.com'', ShortCode = ''abc'',
               CreatedAt = 0, UpdatedAt = 0\<rparr>], urls_id_seq = 2\<rparr> ''abc'')) = [''abc'']"
  by (simp add: cached_redirect_handler_def getURLByShortCodeCache_def rdb_Get_def
        getURLByShortCode_def select_by_short_code_def)

text \<open>
  C9 (best-effort cache). A failing cache write changes nothing in what the request
  does and answers: the effects with a failing \<open>Set\<close> are those with a working one. When
  the cache read fails, by a miss or by any error, the handler answers what the
  handler without cache answers from the store, after the same single store query.
\<close>

theorem cache_best_effort:
  "fst (cached_redirect_handler get_fault db_fault (Some e) r db shortCode) =
     fst (cached_redirect_handler get_fault db_fault None r db shortCode) \<and>
   (snd (getURLByShortCodeCache get_fault r shortCode) \<noteq> None \<longrightarrow>
      responses (fst (cached_redirect_handler get_fault db_fault set_fault r db shortCode)) =
        responses (redirect_handler db_fault db shortCode) \<and>
      store_queries (fst (cached_redirect_handler get_fault db_fault set_fault r db shortCode)) =
        store_queries (redirect_handler db_fault db shortCode))"
  by (auto simp: cached_redirect_handler_def redirect_handler_def Let_def
       split: prod.splits sum.splits)

text \<open>The cache is down for the read and for the write; the store has the row.\<close>

theorem cache_best_effort_witness:
  "snd (getURLByShortCodeCache (Some ''connection refused'')
     \<lparr>url_counter = None, entries = Map.empty\<rparr> ''abc'') \<noteq> None \<and>
   responses (fst (cached_redirect_handler (Some ''connection refused'') None
     (Some ''connection refused'') \<lparr>url_counter = None, entries = Map.empty\<rparr>
     \<lparr>urls = [\<lparr>ID = 1, OriginalURL = ''https://example.com'', ShortCode = ''abc'',
               CreatedAt = 0, UpdatedAt = 0\<rparr>], urls_id_seq = 2\<rparr> ''abc'')) =
     [Redirect 302 ''https://example.com''] \<and>
   store_queries (fst (cached_redirect_handler (Some ''connection refused'') None
     (Some ''connection refused'') \<lparr>url_counter = None, entries = Map.empty\<rparr>
     \<lparr>urls = [\<lparr>ID = 1, OriginalURL = ''https://example.com'', ShortCode = ''abc'',
               CreatedAt = 0, UpdatedAt = 0\<rparr>], urls_id_seq = 2\<rparr> ''abc'')) = [''abc'']"
proof -
  let ?r = "\<lparr>url_counter = None, entries = Map.empty\<rparr>"
  let ?db = "\<lparr>urls = [\<lparr>ID = 1, OriginalURL = ''https://example.com'', ShortCode = ''abc'',
               CreatedAt = 0, UpdatedAt = 0\<rparr>], urls_id_seq = 2\<rparr>"
  have miss: "snd (getURLByShortCodeCache (Some ''connection refused'') ?r ''abc'') \<noteq> None"
    by (simp add: getURLByShortCodeCache_def rdb_Get_def)
  have plain: "redirect_handler None ?db ''abc'' =
                 [StoreQuery ''abc'', Respond (Redirect 302 ''https://example.com'')]"
    by (simp add: redirect_handler_def getURLByShortCode_def select_by_short_code_def)
  from cache_best_effort [of "Some ''connection refused''" None "''connection refused''"
      ?r ?db "''abc''" "Some ''connection refused''"] miss
  have "responses (fst (cached_redirect_handler (Some ''connection refused'') None
          (Some ''connection refused'') ?r ?db ''abc'')) =
          responses (redirect_handler None ?db ''abc'')"
    and "store_queries (fst (cached_redirect_handler (Some ''connection refused'') None
          (Some ''connection refused'') ?r ?db ''abc'')) =
          store_queries (redirect_handler None ?db ''abc'')"
    by blast+
  with miss show ?thesis by (simp only: plain) simp
qed

subsection \<open>Create, then redirect\<close>

text \<open>A value without spaces is stored as it is, or refused.\<close>

lemma varchar10_no_space:
  assumes "CHR '' '' \<notin> set s" "varchar10 s = Some t"
  shows "t = s"
proof (cases "length s \<le> 10")
  case True
  with assms show ?thesis by (simp add: varchar10_def)
next
  case False
  then have "drop 10 s \<noteq> []" by simp
  then obtain x where x: "x \<in> set (drop 10 s)" by (cases "drop 10 s") auto
  then have "x \<in> set s" by (rule in_set_dropD)
  with assms(1) have "x \<noteq> CHR '' ''" by auto
  with x have "\<not> set (drop 10 s) \<subseteq> {CHR '' ''}" by auto
  with False assms(2) show ?thesis by (simp add: varchar10_def)
qed

lemma saveURL_Inr:
  assumes "saveURL fault now db u code = (Inr row, db')" "CHR '' '' \<notin> set code"
  shows "code \<notin> ShortCode ` set (urls db) \<and> urls db' = urls db @ [row] \<and>
         OriginalURL row = u \<and> ShortCode row = code"
proof -
  from assms(1) obtain t where t: "varchar10 code = Some t"
    and rest: "t \<notin> ShortCode ` set (urls db)" "urls db' = urls db @ [row]"
      "OriginalURL row = u" "ShortCode row = t"
    by (auto simp: saveURL_def insert_url_def Let_def split: option.splits if_splits)
  from varchar10_no_space [OF assms(2) t] rest show ?thesis by simp
qed

text \<open>What a 201 of the write handler says about the calls it made.\<close>

lemma convert_handler_created:
  assumes "convert_handler url_Parse incr_fault db_fault now salt r db body =
             (JSON 201 members, r', db')"
  shows "\<exists>u idn row. ShouldBindJSON body = Inr u \<and> url_Parse u \<noteq> None \<and>
           getNextID incr_fault r = (Inr idn, r') \<and>
           saveURL db_fault now db u (generateShortCode idn salt) = (Inr row, db') \<and>
           members =
             [(''shortUrl'', JString (''http://localhost:8000/'' @ generateShortCode idn salt)),
              (''shortCode'', JString (generateShortCode idn salt)),
              (''originalUrl'', JString u),
              (''id'', JInt (ID row))]"
  using assms
  by (auto simp: convert_handler_def Let_def split: sum.splits if_splits prod.splits)





subsection \<open>The cache agrees with the store in every run\<close>









subsection \<open>Reading a code the store has\<close>


lemma cached_handler_miss_found:
  assumes "find (\<lambda>row. ShortCode row = code) (urls db) = Some row" "code \<noteq> ''''"
    "entries r (''url:'' @ code) = None"
  shows "fst (cached_redirect_handler get_fault None set_fault r db code) =
           [CacheGet code, StoreQuery code, CacheSet code (OriginalURL row),
            Respond (Redirect 302 (OriginalURL row))]"
  using assms
  by (simp add: cached_redirect_handler_def getURLByShortCodeCache_def rdb_Get_def
        getURLByShortCode_def select_by_short_code_def split: option.splits)


subsection \<open>The Location header\<close>








end
